theory Spec2Isabelle
  imports Main "HOL-Library.Word"
begin

section \<open>Go strings and the library functions the validator calls\<close>

text \<open>
  A Go string is a sequence of bytes, so it is a \<open>string\<close> (a list of 8-bit \<open>char\<close>)
  here and \<open>length\<close> is Go's \<open>len\<close>. The library functions that look at characters
  (\<open>strings.TrimSpace\<close>, \<open>fmt.Sscanf\<close>, \<open>regexp\<close>) read the bytes as UTF-8 runes;
  \<open>decodeRune\<close> is \<open>utf8.DecodeRuneInString\<close>: the rune at the front of the string and
  its width in bytes, an invalid encoding being the rune \<open>RuneError\<close> of width 1.
\<close>

definition RuneError :: nat where
  "RuneError = 0xFFFD"

fun decodeRune :: "string \<Rightarrow> nat \<times> nat" where
  "decodeRune [] = (RuneError, 0)"
| "decodeRune (c # cs) =
     (let s0 = (of_char c :: nat) in
      if s0 < 0x80 then (s0, 1)
      else if s0 < 0xC2 \<or> 0xF4 < s0 then (RuneError, 1)
      else
        let sz = (if s0 < 0xE0 then 2 else if s0 < 0xF0 then 3 else 4 :: nat);
            lo = (if s0 = 0xE0 then 0xA0 else if s0 = 0xF0 then 0x90 else 0x80 :: nat);
            hi = (if s0 = 0xED then 0x9F else if s0 = 0xF4 then 0x8F else 0xBF :: nat)
        in
        if length (c # cs) < sz then (RuneError, 1)
        else (case cs of
            [] \<Rightarrow> (RuneError, 1)
          | c1 # cs1 \<Rightarrow>
              (let s1 = (of_char c1 :: nat) in
               if s1 < lo \<or> hi < s1 then (RuneError, 1)
               else if sz \<le> 2 then ((s0 mod 32) * 64 + s1 mod 64, 2)
               else (case cs1 of
                   [] \<Rightarrow> (RuneError, 1)
                 | c2 # cs2 \<Rightarrow>
                     (let s2 = (of_char c2 :: nat) in
                      if s2 < 0x80 \<or> 0xBF < s2 then (RuneError, 1)
                      else if sz \<le> 3
                        then ((s0 mod 16) * 4096 + (s1 mod 64) * 64 + s2 mod 64, 3)
                      else (case cs2 of
                          [] \<Rightarrow> (RuneError, 1)
                        | c3 # cs3 \<Rightarrow>
                            (let s3 = (of_char c3 :: nat) in
                             if s3 < 0x80 \<or> 0xBF < s3 then (RuneError, 1)
                             else ((s0 mod 8) * 262144 + (s1 mod 64) * 4096
                                     + (s2 mod 64) * 64 + s3 mod 64, 4))))))))"

text \<open>\<open>utf8.RuneStart\<close>: the byte is not a continuation byte \<open>10xxxxxx\<close>.\<close>

definition RuneStart :: "nat \<Rightarrow> bool" where
  "RuneStart b = (b div 64 \<noteq> 2)"

text \<open>
  The backwards loop of \<open>utf8.DecodeLastRuneInString\<close>:
  \<^verbatim>\<open>for start--; start >= lim; start-- { if RuneStart(s[start]) { break } }\<close>,
  entered here after the first decrement.
\<close>

function scanBack :: "string \<Rightarrow> int \<Rightarrow> int \<Rightarrow> int" where
  "scanBack s lim start =
     (if start \<ge> lim \<and> 0 \<le> start
      then (if RuneStart (of_char (s ! nat start)) then start else scanBack s lim (start - 1))
      else start)"
  by pat_completeness auto
termination
  by (relation "measure (\<lambda>(s, lim, start). nat (start + 1))") auto

definition decodeLastRune :: "string \<Rightarrow> nat \<times> nat" where
  "decodeLastRune s =
     (if s = [] then (RuneError, 0)
      else
        let end = int (length s);
            r = (of_char (last s) :: nat)
        in
        if r < 0x80 then (r, 1)
        else
          let lim = (if end - 4 < 0 then 0 else end - 4);
              start0 = scanBack s lim (end - 2);
              start = (if start0 < 0 then 0 else start0);
              (r, size) = decodeRune (drop (nat start) s)
          in if start + int size \<noteq> end then (RuneError, 1) else (r, size))"

text \<open>
  \<open>unicode.IsSpace\<close>, and the same set, the table \<open>space\<close> of \<open>fmt/scan.go\<close>: the
  characters with the Unicode property White_Space.
\<close>

definition isSpace :: "nat \<Rightarrow> bool" where
  "isSpace r =
     ((0x09 \<le> r \<and> r \<le> 0x0D) \<or> r = 0x20 \<or> r = 0x85 \<or> r = 0xA0 \<or> r = 0x1680
      \<or> (0x2000 \<le> r \<and> r \<le> 0x200A) \<or> r = 0x2028 \<or> r = 0x2029 \<or> r = 0x202F
      \<or> r = 0x205F \<or> r = 0x3000)"

text \<open>
  \<open>strings.TrimSpace\<close> removes the white-space runes at the front, then those at the
  back (\<open>TrimLeftFunc\<close>, then \<open>TrimRightFunc\<close>, which decodes the last rune).
  A rune at the front of a non-empty string is at least one byte wide, so the rest after
  it is \<open>drop (w - 1)\<close> of the tail. The last rune of a non-empty string is at least one
  byte wide too (lemma \<open>decodeLastRune_width\<close>); the test on the width in
  \<open>trimRightSpace\<close> only makes the recursion well-founded.
\<close>

fun trimLeftSpace :: "string \<Rightarrow> string" where
  "trimLeftSpace [] = []"
| "trimLeftSpace (c # cs) =
     (if isSpace (fst (decodeRune (c # cs)))
      then trimLeftSpace (drop (snd (decodeRune (c # cs)) - 1) cs)
      else c # cs)"

function trimRightSpace :: "string \<Rightarrow> string" where
  "trimRightSpace s =
     (if s \<noteq> [] \<and> isSpace (fst (decodeLastRune s)) \<and> 0 < snd (decodeLastRune s)
      then trimRightSpace (take (length s - snd (decodeLastRune s)) s)
      else s)"
  by pat_completeness auto
termination
  by (relation "measure length") auto

definition TrimSpace :: "string \<Rightarrow> string" where
  "TrimSpace s = trimRightSpace (trimLeftSpace s)"

text \<open>
  \<open>strings.Split(s, sep)\<close> for a separator of one byte (the validator splits at
  \<open>","\<close> and at \<open>"="\<close>): the pieces between the separators, a single piece when there
  is no separator, and one empty piece for the empty string.
\<close>

fun splitFrom :: "string \<Rightarrow> string \<Rightarrow> char \<Rightarrow> string list" where
  "splitFrom cur [] sep = [cur]"
| "splitFrom cur (c # cs) sep =
     (if c = sep then cur # splitFrom [] cs sep else splitFrom (cur @ [c]) cs sep)"

definition Split :: "string \<Rightarrow> char \<Rightarrow> string list" where
  "Split s sep = splitFrom [] s sep"

text \<open>\<open>strings.Join(elems, sep)\<close>.\<close>

fun Join :: "string list \<Rightarrow> string \<Rightarrow> string" where
  "Join [] sep = []"
| "Join [x] sep = x"
| "Join (x # y # ys) sep = x @ sep @ Join (y # ys) sep"

section \<open>\<open>fmt.Sscanf(str, "%d", &result)\<close>\<close>

text \<open>
  The scanner reads runes. For the verb \<open>%d\<close> it skips white space (\<open>SkipSpace\<close>, once
  in \<open>doScanf\<close> and once more in \<open>scanInt\<close>), where a newline is an error because
  \<open>Sscanf\<close> does not treat newlines as space; it then needs some input, accepts one sign,
  needs a decimal digit, takes all the digits that follow, and hands the token to
  \<open>strconv.ParseInt(tok, 10, 64)\<close>. Input after the digits is left unread and is no error.
  Every error leaves the operand unassigned; that is the result \<open>None\<close>.
  The operand is a Go \<open>int\<close> of 64 bits (the width limit of \<open>2^30\<close> runes of the
  scanner is not modelled).
\<close>

fun skipSpace :: "string \<Rightarrow> string option" where
  "skipSpace [] = Some []"
| "skipSpace (c # cs) =
     (let r = fst (decodeRune (c # cs));
          rest = drop (snd (decodeRune (c # cs)) - 1) cs
      in
      if r = 0x0D \<and> fst (decodeRune rest) = 0x0A then skipSpace rest
      else if r = 0x0A then None
      else if \<not> isSpace r then Some (c # cs)
      else skipSpace rest)"

definition isDigit :: "char \<Rightarrow> bool" where
  "isDigit c = (0x30 \<le> (of_char c :: nat) \<and> (of_char c :: nat) \<le> 0x39)"

definition digitsVal :: "string \<Rightarrow> int" where
  "digitsVal ds = foldl (\<lambda>n c. 10 * n + (int (of_char c) - 0x30)) 0 ds"

text \<open>
  \<open>strconv.ParseInt(s, 10, 64)\<close>: an optional sign, then decimal digits only; a value
  outside \<open>[-2^63, 2^63 - 1]\<close> is a range error.
\<close>

definition ParseInt :: "string \<Rightarrow> int option" where
  "ParseInt s =
     (if s = [] then None
      else
        let neg = (hd s = CHR ''-'');
            ds = (if hd s = CHR ''+'' \<or> hd s = CHR ''-'' then tl s else s)
        in
        if ds = [] then None
        else if \<not> list_all isDigit ds then None
        else
          let un = digitsVal ds; cutoff = (2 ^ 63 :: int) in
          if \<not> neg \<and> un \<ge> cutoff then None
          else if neg \<and> un > cutoff then None
          else Some (if neg then - un else un))"

definition Sscanf_d :: "string \<Rightarrow> int option" where
  "Sscanf_d str =
     (case skipSpace str of
        None \<Rightarrow> None
      | Some s1 \<Rightarrow>
          (case skipSpace s1 of
             None \<Rightarrow> None
           | Some s2 \<Rightarrow>
               if s2 = [] then None
               else
                 let sgn = (if hd s2 = CHR ''+'' \<or> hd s2 = CHR ''-'' then [hd s2] else []);
                     s3 = (if hd s2 = CHR ''+'' \<or> hd s2 = CHR ''-'' then tl s2 else s2)
                 in
                 if s3 = [] then None
                 else if \<not> isDigit (hd s3) then None
                 else ParseInt (sgn @ takeWhile isDigit s3)))"

text \<open>
  \<^verbatim>\<open>
  func parseInt(str string) int {
      if str == "" { return 0 }
      var result int
      fmt.Sscanf(str, "%d", &result)
      return result
  }
  \<close>
\<close>

definition parseInt :: "string \<Rightarrow> int" where
  "parseInt str =
     (if str = [] then 0
      else (case Sscanf_d str of None \<Rightarrow> 0 | Some result \<Rightarrow> result))"

section \<open>The two fixed regular expressions\<close>

text \<open>
  Go's \<open>regexp\<close> matches rune by rune. The two patterns of the validator start with
  \<open>^\<close> and end with \<open>$\<close> and set no flag, so \<open>MatchString\<close> holds exactly when the whole
  text is in the language of the pattern between the anchors. A pattern is a term of
  \<open>rx\<close> over runes; \<open>matches\<close> decides membership by derivatives.
\<close>

datatype rx =
    Zero
  | Eps
  | Cls "nat \<Rightarrow> bool"
  | Seq rx rx
  | Alt rx rx
  | Star rx

fun nullable :: "rx \<Rightarrow> bool" where
  "nullable Zero = False"
| "nullable Eps = True"
| "nullable (Cls p) = False"
| "nullable (Seq r s) = (nullable r \<and> nullable s)"
| "nullable (Alt r s) = (nullable r \<or> nullable s)"
| "nullable (Star r) = True"

fun seq :: "rx \<Rightarrow> rx \<Rightarrow> rx" where
  "seq Zero s = Zero"
| "seq Eps s = s"
| "seq r s = Seq r s"

fun alt :: "rx \<Rightarrow> rx \<Rightarrow> rx" where
  "alt Zero s = s"
| "alt r Zero = r"
| "alt r s = Alt r s"

fun deriv :: "nat \<Rightarrow> rx \<Rightarrow> rx" where
  "deriv c Zero = Zero"
| "deriv c Eps = Zero"
| "deriv c (Cls p) = (if p c then Eps else Zero)"
| "deriv c (Seq r s) =
     (if nullable r then alt (seq (deriv c r) s) (deriv c s) else seq (deriv c r) s)"
| "deriv c (Alt r s) = alt (deriv c r) (deriv c s)"
| "deriv c (Star r) = seq (deriv c r) (Star r)"

fun matches :: "rx \<Rightarrow> nat list \<Rightarrow> bool" where
  "matches r [] = nullable r"
| "matches r (c # cs) = matches (deriv c r) cs"

text \<open>
  The texts a pattern stands for, to state what \<open>matches\<close> decides
  (lemma \<open>matches_texts\<close>).
\<close>

inductive_set repeated :: "nat list set \<Rightarrow> nat list set" for A :: "nat list set" where
  none: "[] \<in> repeated A"
| more: "u \<in> A \<Longrightarrow> w \<in> repeated A \<Longrightarrow> u @ w \<in> repeated A"

fun texts :: "rx \<Rightarrow> nat list set" where
  "texts Zero = {}"
| "texts Eps = {[]}"
| "texts (Cls p) = {[c] | c. p c}"
| "texts (Seq r s) = {u @ w | u w. u \<in> texts r \<and> w \<in> texts s}"
| "texts (Alt r s) = texts r \<union> texts s"
| "texts (Star r) = repeated (texts r)"

fun runes :: "string \<Rightarrow> nat list" where
  "runes [] = []"
| "runes (c # cs) =
     fst (decodeRune (c # cs)) # runes (drop (snd (decodeRune (c # cs)) - 1) cs)"

definition MatchString :: "rx \<Rightarrow> string \<Rightarrow> bool" where
  "MatchString r str = matches r (runes str)"

definition Plus :: "rx \<Rightarrow> rx" where
  "Plus r = Seq r (Star r)"

definition Opt :: "rx \<Rightarrow> rx" where
  "Opt r = Alt r Eps"

definition Chr :: "char \<Rightarrow> rx" where
  "Chr c = Cls (\<lambda>r. r = of_char c)"

fun Lit :: "string \<Rightarrow> rx" where
  "Lit [] = Eps"
| "Lit (c # cs) = Seq (Chr c) (Lit cs)"

definition between :: "char \<Rightarrow> char \<Rightarrow> nat \<Rightarrow> bool" where
  "between lo hi r = (of_char lo \<le> r \<and> r \<le> of_char hi)"

definition oneOf :: "string \<Rightarrow> nat \<Rightarrow> bool" where
  "oneOf cs r = (r \<in> set (map of_char cs))"

text \<open>The Perl class \<open>\s\<close> of Go's \<open>regexp\<close>: tab, newline, form feed, return, space.\<close>

definition perlSpace :: "nat \<Rightarrow> bool" where
  "perlSpace r = (r = 0x09 \<or> r = 0x0A \<or> r = 0x0C \<or> r = 0x0D \<or> r = 0x20)"

text \<open>\<^verbatim>\<open>^[a-zA-Z0-9._%+-]+@[a-zA-Z0-9.-]+\.[a-zA-Z]{2,}$\<close>\<close>

definition alnum :: "nat \<Rightarrow> bool" where
  "alnum r = (between CHR ''a'' CHR ''z'' r \<or> between CHR ''A'' CHR ''Z'' r
                \<or> between CHR ''0'' CHR ''9'' r)"

definition alpha :: "nat \<Rightarrow> bool" where
  "alpha r = (between CHR ''a'' CHR ''z'' r \<or> between CHR ''A'' CHR ''Z'' r)"

definition emailRegex :: rx where
  "emailRegex =
     Seq (Plus (Cls (\<lambda>r. alnum r \<or> oneOf ''._%+-'' r)))
    (Seq (Chr CHR ''@'')
    (Seq (Plus (Cls (\<lambda>r. alnum r \<or> oneOf ''.-'' r)))
    (Seq (Chr CHR ''.'')
    (Seq (Cls alpha) (Seq (Cls alpha) (Star (Cls alpha)))))))"

text \<open>
  \<^verbatim>\<open>^https?://[^\s/$.?#].[^\s]*$\<close>; the dot matches every rune but the newline.
\<close>

definition urlRegex :: rx where
  "urlRegex =
     Seq (Lit ''http'')
    (Seq (Opt (Chr CHR ''s''))
    (Seq (Lit ''://'')
    (Seq (Cls (\<lambda>r. \<not> (perlSpace r \<or> oneOf ''/$.?#'' r)))
    (Seq (Cls (\<lambda>r. r \<noteq> 0x0A))
         (Star (Cls (\<lambda>r. \<not> perlSpace r)))))))"

section \<open>Go values as reflection sees them\<close>

text \<open>
  \<open>Validate\<close> takes an \<open>interface{}\<close> and inspects it with \<open>reflect\<close>. A value is
  modelled by what reflection reports of it: its kind and its contents. \<open>GNil\<close> is the
  nil interface (kind \<open>Invalid\<close>); \<open>GInt\<close> stands for the kinds \<open>Int\<close> to \<open>Int64\<close>
  (read by \<open>val.Int()\<close>; the validator only compares it, so it is an \<open>int\<close> here),
  \<open>GUint\<close> for the unsigned kinds, \<open>GFloat\<close> and \<open>GComplex\<close>
  carry the bits of the number; \<open>GString\<close> is a value of the type \<open>string\<close> itself and
  \<open>GNamedString\<close> a value of a defined type whose underlying type is \<open>string\<close> (kind
  \<open>String\<close>, but the type assertion \<open>value.(string)\<close> fails on it); a nil slice or map
  is the empty one (\<open>Len\<close> is 0); \<open>GPtr None\<close> is a nil pointer; \<open>GChan\<close>, \<open>GFunc\<close>
  and \<open>GUnsafePointer\<close> are the kinds that no evaluator reads.

  A struct is its list of fields in declaration order. Of a field the validator reads
  \<open>fieldType.Name\<close>, \<open>fieldType.IsExported()\<close>, \<open>fieldType.Tag.Get("validate")\<close> (the
  empty string when the tag has no such key) and \<open>field.Interface()\<close>.
\<close>

datatype 'v field = Field (Name: string) (IsExported: bool) (Tag_validate: string) (Interface: 'v)

datatype gvalue =
    GNil
  | GBool bool
  | GInt int
  | GUint nat
  | GFloat "64 word"
  | GComplex "64 word" "64 word"
  | GString string
  | GNamedString string
  | GSlice "gvalue list"
  | GArray "gvalue list"
  | GMap "(gvalue \<times> gvalue) list"
  | GPtr "gvalue option"
  | GStruct "gvalue field list"
  | GChan
  | GFunc
  | GUnsafePointer

text \<open>An \<open>error\<close> is its message; \<open>None\<close> is Go's \<open>nil\<close> error.\<close>

type_synonym error = "string option"

text \<open>
  \<open>regexp.Compile\<close> on the parameter of a \<open>pattern\<close> rule is a parameter of the model:
  it gives the text of the compile error, or the \<open>MatchString\<close> of the compiled pattern.
\<close>

type_synonym compile = "string \<Rightarrow> string + (string \<Rightarrow> bool)"

section \<open>The rule evaluators\<close>

text \<open>
  Every evaluator looks at \<open>reflect.ValueOf(value)\<close> or asserts \<open>value.(string)\<close>.
  \<open>ValueOf\<close> of an interface gives the value inside it, so the kind \<open>Interface\<close> that
  \<open>validateRequired\<close> lists beside \<open>Ptr\<close> does not occur; the nil interface has the kind
  \<open>Invalid\<close>. A \<open>switch\<close> on the kind without a \<open>default\<close> falls through to
  \<open>return nil\<close>: that is the last equation of each function.
\<close>

text \<open>The field name between single quotes, as \<open>'%s'\<close> prints it.\<close>

definition quoted :: "string \<Rightarrow> string" where
  "quoted name = [CHR 0x27] @ name @ [CHR 0x27]"

fun validateRequired :: "string \<Rightarrow> gvalue \<Rightarrow> error" where
  "validateRequired name (GString s) =
     (if s = [] then Some (''field '' @ quoted name @ '' is required'') else None)"
| "validateRequired name (GNamedString s) =
     (if s = [] then Some (''field '' @ quoted name @ '' is required'') else None)"
| "validateRequired name (GSlice xs) =
     (if length xs = 0 then Some (''field '' @ quoted name @ '' is required'') else None)"
| "validateRequired name (GMap m) =
     (if length m = 0 then Some (''field '' @ quoted name @ '' is required'') else None)"
| "validateRequired name (GArray xs) =
     (if length xs = 0 then Some (''field '' @ quoted name @ '' is required'') else None)"
| "validateRequired name (GPtr p) =
     (if p = None then Some (''field '' @ quoted name @ '' is required'') else None)"
| "validateRequired name GNil = Some (''field '' @ quoted name @ '' is required'')"
| "validateRequired name _ = None"

fun validateMin :: "string \<Rightarrow> gvalue \<Rightarrow> string \<Rightarrow> error" where
  "validateMin name (GString s) minStr =
     (if int (length s) < parseInt minStr
      then Some (''field '' @ quoted name @ '' must be at least '' @ minStr @ '' characters'')
      else None)"
| "validateMin name (GNamedString s) minStr =
     (if int (length s) < parseInt minStr
      then Some (''field '' @ quoted name @ '' must be at least '' @ minStr @ '' characters'')
      else None)"
| "validateMin name (GSlice xs) minStr =
     (if int (length xs) < parseInt minStr
      then Some (''field '' @ quoted name @ '' must have at least '' @ minStr @ '' items'')
      else None)"
| "validateMin name (GArray xs) minStr =
     (if int (length xs) < parseInt minStr
      then Some (''field '' @ quoted name @ '' must have at least '' @ minStr @ '' items'')
      else None)"
| "validateMin name (GInt i) minStr =
     (if i < parseInt minStr
      then Some (''field '' @ quoted name @ '' must be at least '' @ minStr)
      else None)"
| "validateMin name _ minStr = None"

fun validateMax :: "string \<Rightarrow> gvalue \<Rightarrow> string \<Rightarrow> error" where
  "validateMax name (GString s) maxStr =
     (if int (length s) > parseInt maxStr
      then Some (''field '' @ quoted name @ '' must be at most '' @ maxStr @ '' characters'')
      else None)"
| "validateMax name (GNamedString s) maxStr =
     (if int (length s) > parseInt maxStr
      then Some (''field '' @ quoted name @ '' must be at most '' @ maxStr @ '' characters'')
      else None)"
| "validateMax name (GSlice xs) maxStr =
     (if int (length xs) > parseInt maxStr
      then Some (''field '' @ quoted name @ '' must have at most '' @ maxStr @ '' items'')
      else None)"
| "validateMax name (GArray xs) maxStr =
     (if int (length xs) > parseInt maxStr
      then Some (''field '' @ quoted name @ '' must have at most '' @ maxStr @ '' items'')
      else None)"
| "validateMax name (GInt i) maxStr =
     (if i > parseInt maxStr
      then Some (''field '' @ quoted name @ '' must be at most '' @ maxStr)
      else None)"
| "validateMax name _ maxStr = None"

fun validateEmail :: "string \<Rightarrow> gvalue \<Rightarrow> error" where
  "validateEmail name (GString str) =
     (if \<not> MatchString emailRegex str
      then Some (''field '' @ quoted name @ '' must be a valid email address'')
      else None)"
| "validateEmail name _ =
     Some (''field '' @ quoted name @ '' must be a string for email validation'')"

fun validateURL :: "string \<Rightarrow> gvalue \<Rightarrow> error" where
  "validateURL name (GString str) =
     (if str = [] then None
      else if \<not> MatchString urlRegex str
      then Some (''field '' @ quoted name @ '' must be a valid URL'')
      else None)"
| "validateURL name _ =
     Some (''field '' @ quoted name @ '' must be a string for URL validation'')"

fun validatePattern :: "compile \<Rightarrow> string \<Rightarrow> gvalue \<Rightarrow> string \<Rightarrow> error" where
  "validatePattern re name (GString str) pattern =
     (case re pattern of
        Inl err \<Rightarrow> Some (''invalid pattern for field '' @ quoted name @ '': '' @ err)
      | Inr regex \<Rightarrow>
          if \<not> regex str
          then Some (''field '' @ quoted name @ '' does not match required pattern'')
          else None)"
| "validatePattern re name _ pattern =
     Some (''field '' @ quoted name @ '' must be a string for pattern validation'')"

definition applyRule :: "compile \<Rightarrow> string \<Rightarrow> gvalue \<Rightarrow> string \<Rightarrow> string \<Rightarrow> error" where
  "applyRule re name v ruleName ruleValue =
     (if ruleName = ''required'' then validateRequired name v
      else if ruleName = ''min'' then validateMin name v ruleValue
      else if ruleName = ''max'' then validateMax name v ruleValue
      else if ruleName = ''email'' then validateEmail name v
      else if ruleName = ''url'' then validateURL name v
      else if ruleName = ''pattern'' then validatePattern re name v ruleValue
      else Some (''unknown validation rule: '' @ ruleName))"

section \<open>\<open>validateField\<close> and \<open>Validate\<close>\<close>

text \<open>
  The loop of \<open>validateField\<close> over the pieces of the tag, with the slice \<open>errors\<close> as
  an accumulator:
  \<^verbatim>\<open>
  for _, rule := range rules {
      rule = strings.TrimSpace(rule)
      if rule == "" { continue }
      parts := strings.Split(rule, "=")
      ruleName := parts[0]
      var ruleValue string
      if len(parts) > 1 { ruleValue = parts[1] }
      if err := v.applyRule(name, value, ruleName, ruleValue); err != nil {
          errors = append(errors, err.Error())
      }
  }
  \<close>
  \<open>Split\<close> never returns the empty list, so \<open>parts[0]\<close> is \<open>hd parts\<close>.
\<close>

definition ruleName_of :: "string list \<Rightarrow> string" where
  "ruleName_of parts = hd parts"

definition ruleValue_of :: "string list \<Rightarrow> string" where
  "ruleValue_of parts = (if length parts > 1 then parts ! 1 else [])"

fun validateRules ::
  "compile \<Rightarrow> string \<Rightarrow> gvalue \<Rightarrow> string list \<Rightarrow> string list \<Rightarrow> string list" where
  "validateRules re name v [] errors = errors"
| "validateRules re name v (rule # rules) errors =
     (if TrimSpace rule = [] then validateRules re name v rules errors
      else
        (case applyRule re name v
                (ruleName_of (Split (TrimSpace rule) CHR ''=''))
                (ruleValue_of (Split (TrimSpace rule) CHR ''='')) of
           Some err \<Rightarrow> validateRules re name v rules (errors @ [err])
         | None \<Rightarrow> validateRules re name v rules errors))"

definition validateField :: "compile \<Rightarrow> string \<Rightarrow> gvalue \<Rightarrow> string \<Rightarrow> string list" where
  "validateField re name v tag = validateRules re name v (Split tag CHR '','') []"

text \<open>
  The loop of \<open>Validate\<close> over the fields: an unexported field and a field with an empty
  \<open>validate\<close> tag are skipped (\<open>continue\<close>), the errors of every other field are appended.
\<close>

fun validateFields :: "compile \<Rightarrow> gvalue field list \<Rightarrow> string list \<Rightarrow> string list" where
  "validateFields re [] errors = errors"
| "validateFields re (f # fs) errors =
     (if \<not> IsExported f then validateFields re fs errors
      else if Tag_validate f = [] then validateFields re fs errors
      else validateFields re fs
             (errors @ validateField re (Name f) (Interface f) (Tag_validate f)))"

text \<open>
  \<open>Validate\<close>: a pointer is followed once (a nil pointer is the first error), what is
  then not a struct is the second error, and the errors of the fields, if any, are joined
  into one error.
\<close>

definition Validate :: "compile \<Rightarrow> gvalue \<Rightarrow> error" where
  "Validate re data =
     (case data of
        GPtr None \<Rightarrow> Some ''validation target cannot be nil''
      | _ \<Rightarrow>
          (case (case data of GPtr (Some elem) \<Rightarrow> elem | _ \<Rightarrow> data) of
             GStruct fields \<Rightarrow>
               (let errors = validateFields re fields [] in
                if length errors > 0
                then Some (''validation failed: '' @ Join errors ''; '')
                else None)
           | _ \<Rightarrow> Some ''validation target must be a struct''))"

section \<open>What the loops compute, rule by rule and field by field\<close>

text \<open>
  The errors of one piece of a tag taken alone: none for a piece that is empty after
  trimming, else what \<open>applyRule\<close> returns for its name and parameter.
\<close>

definition ruleErrors :: "compile \<Rightarrow> string \<Rightarrow> gvalue \<Rightarrow> string \<Rightarrow> string list" where
  "ruleErrors re name v rule =
     (if TrimSpace rule = [] then []
      else
        (case applyRule re name v
                (ruleName_of (Split (TrimSpace rule) CHR ''=''))
                (ruleValue_of (Split (TrimSpace rule) CHR ''='')) of
           Some err \<Rightarrow> [err]
         | None \<Rightarrow> []))"

text \<open>
  The violations of a record as the specification describes them: over the exported
  fields that have a \<open>validate\<close> tag, in declaration order, the errors of the rules of
  the field, in the order of the tag.
\<close>

definition violations :: "compile \<Rightarrow> gvalue field list \<Rightarrow> string list" where
  "violations re fields =
     concat (map (\<lambda>f. concat (map (ruleErrors re (Name f) (Interface f))
                                  (Split (Tag_validate f) CHR '','')))
                 (filter (\<lambda>f. IsExported f \<and> Tag_validate f \<noteq> []) fields))"

text \<open>
  A text that starts with an integer, in words: white space without a newline (any
  number of runes), then an optional sign, then at least one decimal digit, as many
  digits as there are, and the value, with its sign, within the range of 64 bits. What
  follows the digits is free.
\<close>

definition blankRunes :: "string \<Rightarrow> bool" where
  "blankRunes ws = list_all (\<lambda>r. isSpace r \<and> r \<noteq> 0x0A) (runes ws)"

definition leadingInteger :: "string \<Rightarrow> int \<Rightarrow> bool" where
  "leadingInteger p n =
     (\<exists>ws sgn ds rest.
        p = ws @ sgn @ ds @ rest
        \<and> blankRunes ws
        \<and> (sgn = [] \<or> sgn = ''+'' \<or> sgn = ''-'')
        \<and> ds \<noteq> [] \<and> list_all isDigit ds
        \<and> (rest = [] \<or> \<not> isDigit (hd rest))
        \<and> n = (if sgn = ''-'' then - digitsVal ds else digitsVal ds)
        \<and> - (2 ^ 63) \<le> n \<and> n < 2 ^ 63)"

text \<open>A \<open>regexp.Compile\<close> that accepts no pattern, for closed examples.\<close>

definition compile_none :: compile where
  "compile_none pattern = Inl ''unsupported''"

section \<open>Lemmas on the loops and on the string functions\<close>

text \<open>
  The recursive equations of \<open>scanBack\<close> and \<open>trimRightSpace\<close> are conditional on
  nothing, so they are unfolded by hand.
\<close>

declare scanBack.simps [simp del] trimRightSpace.simps [simp del]

lemma validateRules_acc:
  "validateRules re name v rules errors = errors @ validateRules re name v rules []"
proof (induction rules arbitrary: errors)
  case Nil
  show ?case by simp
next
  case (Cons rule rules)
  show ?case
    using Cons.IH [of "errors @ [e]" for e] Cons.IH [of "[e]" for e] Cons.IH [of errors]
    by (simp split: option.split)
qed

lemma validateRules_Cons:
  "validateRules re name v (rule # rules) [] =
     ruleErrors re name v rule @ validateRules re name v rules []"
  using validateRules_acc [of re name v rules "[e]" for e]
  by (simp add: ruleErrors_def split: option.split)

lemma validateRules_concat:
  "validateRules re name v rules [] = concat (map (ruleErrors re name v) rules)"
  by (induction rules) (simp_all add: validateRules_Cons del: validateRules.simps(2))

lemma validateRules_append:
  "validateRules re name v (xs @ ys) [] =
     validateRules re name v xs [] @ validateRules re name v ys []"
  by (simp add: validateRules_concat)

lemma validateFields_acc:
  "validateFields re fs errors = errors @ validateFields re fs []"
proof (induction fs arbitrary: errors)
  case Nil
  show ?case by simp
next
  case (Cons f fs)
  show ?case
    using Cons.IH [of "errors @ validateField re (Name f) (Interface f) (Tag_validate f)"]
      Cons.IH [of "validateField re (Name f) (Interface f) (Tag_validate f)"] Cons.IH [of errors]
    by simp
qed

lemma validateFields_violations:
  "validateFields re fs [] = violations re fs"
proof (induction fs)
  case Nil
  show ?case by (simp add: violations_def)
next
  case (Cons f fs)
  have "validateFields re (f # fs) [] =
          (if IsExported f \<and> Tag_validate f \<noteq> []
           then validateField re (Name f) (Interface f) (Tag_validate f) else [])
          @ validateFields re fs []"
    using validateFields_acc [of re fs "validateField re (Name f) (Interface f) (Tag_validate f)"]
    by simp
  then show ?case
    using Cons.IH by (simp add: violations_def validateField_def validateRules_concat)
qed

lemma splitFrom_no_sep:
  "sep \<notin> set n \<Longrightarrow> splitFrom cur n sep = [cur @ n]"
  by (induction n arbitrary: cur) auto

lemma splitFrom_first:
  "sep \<notin> set n \<Longrightarrow> splitFrom cur (n @ sep # rest) sep = (cur @ n) # splitFrom [] rest sep"
  by (induction n arbitrary: cur) auto

lemma splitFrom_nonempty: "splitFrom cur s sep \<noteq> []"
  by (induction s arbitrary: cur) simp_all

lemma splitFrom_Join: "Join (splitFrom cur s sep) [sep] = cur @ s"
proof (induction s arbitrary: cur)
  case Nil
  show ?case by simp
next
  case (Cons c s)
  obtain p ps where ps: "splitFrom [] s sep = p # ps"
    by (cases "splitFrom [] s sep") (simp_all add: splitFrom_nonempty)
  show ?case using Cons [of "[]"] Cons [of "cur @ [c]"] ps by simp
qed

lemma Split_Join: "Join (Split s sep) [sep] = s"
  by (simp add: Split_def splitFrom_Join)

lemma splitFrom_pieces:
  "piece \<in> set (splitFrom cur s sep) \<Longrightarrow> sep \<notin> set cur \<Longrightarrow> sep \<notin> set piece"
proof (induction s arbitrary: cur)
  case Nil
  then show ?case by simp
next
  case (Cons c s)
  show ?case
  proof (cases "c = sep")
    case True
    with Cons.prems have "piece = cur \<or> piece \<in> set (splitFrom [] s sep)" by simp
    then show ?thesis using Cons.IH [of "[]"] Cons.prems(2) by auto
  next
    case False
    with Cons.prems have "piece \<in> set (splitFrom (cur @ [c]) s sep)" by simp
    then show ?thesis using Cons.IH [of "cur @ [c]"] Cons.prems(2) False by auto
  qed
qed

lemma Split_pieces: "piece \<in> set (Split s sep) \<Longrightarrow> sep \<notin> set piece"
  using splitFrom_pieces [of piece "[]" s sep] by (simp add: Split_def)

lemma skipSpace_digit:
  "isDigit c \<Longrightarrow> skipSpace (c # cs) = Some (c # cs)"
  by (auto simp: isDigit_def isSpace_def Let_def)

lemma parseInt_decimal:
  assumes "ds \<noteq> []" and "list_all isDigit ds" and "digitsVal ds < 2 ^ 63"
  shows "parseInt ds = digitsVal ds"
proof -
  obtain c cs where ds: "ds = c # cs" using assms(1) by (cases ds) simp_all
  have c: "isDigit c" using assms(2) ds by simp
  have sgn: "c \<noteq> CHR ''+''" "c \<noteq> CHR ''-''" using c by (auto simp: isDigit_def)
  have tw: "takeWhile isDigit cs = cs" using assms(2) ds by (simp add: list_all_iff)
  have "Sscanf_d ds = ParseInt ds"
    using c sgn by (simp add: Sscanf_d_def ds skipSpace_digit tw del: skipSpace.simps)
  moreover have "ParseInt ds = Some (digitsVal ds)"
    using assms sgn by (simp add: ParseInt_def ds)
  ultimately show ?thesis using assms(1) by (simp add: parseInt_def)
qed

lemma scanBack_le: "scanBack s lim start \<le> start"
proof (induction s lim start rule: scanBack.induct)
  case (1 s lim start)
  show ?case
  proof (cases "start \<ge> lim \<and> 0 \<le> start \<and> \<not> RuneStart (of_char (s ! nat start))")
    case True
    then have "scanBack s lim (start - 1) \<le> start - 1" using 1 by simp
    then show ?thesis using True by (subst scanBack.simps) simp
  next
    case False
    then show ?thesis by (subst scanBack.simps) auto
  qed
qed

lemma decodeRune_width_le: "snd (decodeRune s) \<le> 4"
  by (cases s) (auto simp: Let_def split: list.split)

lemma decodeLastRune_width: "s \<noteq> [] \<Longrightarrow> 0 < snd (decodeLastRune s)"
proof -
  assume ne: "s \<noteq> []"
  define e where "e = int (length s)"
  define st where "st = scanBack s (if e - 4 < 0 then 0 else e - 4) (e - 2)"
  define b where "b = (if st < 0 then 0 else st)"
  have le: "st \<le> e - 2" unfolding st_def by (rule scanBack_le)
  have e1: "1 \<le> e" using ne by (cases s) (simp_all add: e_def)
  have lt: "b < e" using le e1 by (simp add: b_def)
  have "b + int (snd (decodeRune (drop (nat b) s))) = e \<Longrightarrow> 0 < snd (decodeRune (drop (nat b) s))"
    using lt by (cases "snd (decodeRune (drop (nat b) s))") simp_all
  then show ?thesis
    using ne
    unfolding decodeLastRune_def Let_def e_def [symmetric] st_def [symmetric] b_def [symmetric]
    by (simp add: case_prod_beta)
qed


text \<open>
  The matcher decides membership in the language of the pattern, and \<open>parseInt\<close> reads a
  plain decimal numeral that fits 63 bits as its value.
\<close>

lemma nullable_texts: "nullable r \<longleftrightarrow> [] \<in> texts r"
  by (induction r) (auto intro: repeated.none)

lemma texts_seq: "texts (seq r s) = texts (Seq r s)"
  by (cases r) auto

lemma texts_alt: "texts (alt r s) = texts r \<union> texts s"
  by (cases r; cases s) auto

lemma repeated_cons:
  "c # w \<in> repeated A \<longleftrightarrow> (\<exists>u t. w = u @ t \<and> c # u \<in> A \<and> t \<in> repeated A)"
proof
  assume "c # w \<in> repeated A"
  then show "\<exists>u t. w = u @ t \<and> c # u \<in> A \<and> t \<in> repeated A"
  proof (induction "c # w" arbitrary: w rule: repeated.induct)
    case (more u t)
    show ?case
    proof (cases u)
      case Nil
      with more show ?thesis by simp
    next
      case (Cons d u')
      with more.hyps(1,2,4) show ?thesis by auto
    qed
  qed
next
  assume "\<exists>u t. w = u @ t \<and> c # u \<in> A \<and> t \<in> repeated A"
  then obtain u t where "w = u @ t" "c # u \<in> A" "t \<in> repeated A" by blast
  then show "c # w \<in> repeated A"
    using repeated.more [of "c # u" A t] by simp
qed

lemma texts_deriv: "texts (deriv c r) = {w. c # w \<in> texts r}"
proof (induction r)
  case (Seq r s)
  have "{w. c # w \<in> texts (Seq r s)}
        = {u @ t | u t. c # u \<in> texts r \<and> t \<in> texts s}
          \<union> (if [] \<in> texts r then {w. c # w \<in> texts s} else {})"
    by (auto simp: Cons_eq_append_conv)
  then show ?case using Seq by (auto simp: texts_seq texts_alt nullable_texts)
next
  case (Star r)
  then show ?case by (auto simp: texts_seq repeated_cons)
qed (auto simp: texts_alt)

lemma matches_texts: "matches r w \<longleftrightarrow> w \<in> texts r"
  by (induction w arbitrary: r) (simp_all add: nullable_texts texts_deriv)

text \<open>
  \<open>Sscanf\<close> with \<open>%d\<close> assigns a value exactly when the text starts with an integer
  in the sense of \<open>leadingInteger\<close>, and the value is that integer.
\<close>

lemma isSpace_not_RuneError: "isSpace r \<Longrightarrow> r \<noteq> RuneError"
  by (auto simp: isSpace_def RuneError_def)

lemma decodeRune_append:
  "fst (decodeRune xs) \<noteq> RuneError \<Longrightarrow> decodeRune (xs @ s) = decodeRune xs"
proof (cases xs)
  case Nil
  assume "fst (decodeRune xs) \<noteq> RuneError"
  with Nil show ?thesis by simp
next
  case (Cons c cs)
  assume h: "fst (decodeRune xs) \<noteq> RuneError"
  show ?thesis
    using h unfolding Cons
    by (cases cs; cases "tl cs"; cases "tl (tl cs)"; cases "tl (tl (tl cs))")
       (auto simp: Let_def split: if_splits)
qed

lemma decodeRune_width:
  "fst (decodeRune xs) \<noteq> RuneError \<Longrightarrow> 0 < snd (decodeRune xs) \<and> snd (decodeRune xs) \<le> length xs"
proof (cases xs)
  case Nil
  assume "fst (decodeRune xs) \<noteq> RuneError"
  with Nil show ?thesis by simp
next
  case (Cons c cs)
  assume h: "fst (decodeRune xs) \<noteq> RuneError"
  show ?thesis
    using h unfolding Cons
    by (cases cs; cases "tl cs"; cases "tl (tl cs)")
       (auto simp: Let_def split: if_splits)
qed

lemma decodeRune_take_aux:
  "decodeRune xs = (r, w) \<Longrightarrow> r \<noteq> RuneError \<Longrightarrow> decodeRune (take w xs) = (r, w)"
proof (cases xs)
  case Nil
  assume "decodeRune xs = (r, w)" "r \<noteq> RuneError"
  with Nil show ?thesis by simp
next
  case (Cons c cs)
  assume h: "decodeRune xs = (r, w)" "r \<noteq> RuneError"
  have w: "w = 1 \<or> w = 2 \<or> w = 3 \<or> w = 4"
    using h unfolding Cons
    by (auto simp: Let_def split: if_splits list.splits)
  show ?thesis
  proof (cases cs)
    case Nil
    with h Cons w show ?thesis by (auto simp: Let_def split: if_splits)
  next
    case c1: (Cons c1 cs1)
    show ?thesis
    proof (cases cs1)
      case Nil
      with h Cons c1 w show ?thesis by (auto simp: Let_def split: if_splits)
    next
      case c2: (Cons c2 cs2)
      show ?thesis
      proof (cases cs2)
        case Nil
        with h Cons c1 c2 w show ?thesis by (auto simp: Let_def split: if_splits)
      next
        case c3: (Cons c3 cs3)
        with h Cons c1 c2 w show ?thesis by (auto simp: Let_def split: if_splits)
      qed
    qed
  qed
qed

lemma skipSpace_start:
  "s = [] \<or> \<not> isSpace (fst (decodeRune s)) \<Longrightarrow> skipSpace s = Some s"
  by (cases s) (auto simp: Let_def isSpace_def simp del: decodeRune.simps(2))

lemma decodeRune_ascii: "(of_char c :: nat) < 0x80 \<Longrightarrow> decodeRune (c # cs) = (of_char c, 1)"
  by simp

lemma skipSpace_newline: "fst (decodeRune s) = 0x0A \<Longrightarrow> skipSpace s = None"
  by (cases s) (auto simp: Let_def RuneError_def simp del: decodeRune.simps(2))

lemma blankRunes_Cons:
  "blankRunes (c # cs) \<longleftrightarrow>
     isSpace (fst (decodeRune (c # cs))) \<and> fst (decodeRune (c # cs)) \<noteq> 0x0A
     \<and> blankRunes (drop (snd (decodeRune (c # cs)) - 1) cs)"
  by (simp add: blankRunes_def del: decodeRune.simps(2))

lemma skipSpace_blank:
  "blankRunes ws \<Longrightarrow> s = [] \<or> \<not> isSpace (fst (decodeRune s)) \<Longrightarrow> skipSpace (ws @ s) = Some s"
proof (induction ws rule: runes.induct)
  case 1
  then show ?case using skipSpace_start [of s] by simp
next
  case (2 c cs)
  define r where "r = fst (decodeRune (c # cs))"
  define w where "w = snd (decodeRune (c # cs))"
  have sp: "isSpace r" "r \<noteq> 0x0A" and bl: "blankRunes (drop (w - 1) cs)"
    using "2.prems"(1) by (simp_all add: blankRunes_Cons r_def w_def del: decodeRune.simps(2))
  have ne: "r \<noteq> RuneError" using sp(1) by (rule isSpace_not_RuneError)
  have app: "decodeRune (c # (cs @ s)) = decodeRune (c # cs)"
    using decodeRune_append [of "c # cs" s] ne by (simp add: r_def del: decodeRune.simps(2))
  have wl: "0 < w \<and> w \<le> length (c # cs)"
    using decodeRune_width [of "c # cs"] ne by (simp add: r_def w_def del: decodeRune.simps(2))
  have dr: "drop (w - 1) (cs @ s) = drop (w - 1) cs @ s" using wl by simp
  have ih: "skipSpace (drop (w - 1) cs @ s) = Some s"
    using "2.IH" bl "2.prems"(2) by (simp add: w_def del: decodeRune.simps(2))
  have "skipSpace (c # (cs @ s)) = skipSpace (drop (w - 1) cs @ s)"
    using sp wl
    by (simp add: app Let_def r_def [symmetric] w_def [symmetric] del: decodeRune.simps(2))
  then show ?case using ih by simp
qed

lemma skipSpace_Some:
  "skipSpace p = Some s \<Longrightarrow>
     \<exists>ws. p = ws @ s \<and> blankRunes ws \<and> (s = [] \<or> \<not> isSpace (fst (decodeRune s)))"
proof (induction p rule: skipSpace.induct)
  case 1
  then show ?case by (simp add: blankRunes_def)
next
  case (2 c cs)
  define r where "r = fst (decodeRune (c # cs))"
  define w where "w = snd (decodeRune (c # cs))"
  define rest where "rest = drop (w - 1) cs"
  have eq: "skipSpace (c # cs) =
      (if r = 0x0D \<and> fst (decodeRune rest) = 0x0A then skipSpace rest
       else if r = 0x0A then None
       else if \<not> isSpace r then Some (c # cs)
       else skipSpace rest)"
    by (simp add: Let_def r_def w_def rest_def del: decodeRune.simps(2))
  show ?case
  proof (cases "isSpace r")
    case False
    then have "r \<noteq> 0x0D" "r \<noteq> 0x0A" by (auto simp: isSpace_def)
    with False eq "2.prems" have "s = c # cs" by simp
    then show ?thesis using False by (auto simp: blankRunes_def r_def simp del: decodeRune.simps(2))
  next
    case True
    have nl: "fst (decodeRune rest) \<noteq> 0x0A \<or> r \<noteq> 0x0D"
    proof (rule ccontr)
      assume "\<not> ?thesis"
      then have "skipSpace rest = None" "skipSpace (c # cs) = skipSpace rest"
        using skipSpace_newline [of rest] eq by simp_all
      with "2.prems" show False by simp
    qed
    have rn: "r \<noteq> 0x0A" using eq nl "2.prems" by (auto split: if_splits)
    have sk: "skipSpace rest = Some s" using eq nl rn True "2.prems" by (auto split: if_splits)
    have "\<exists>ws. rest = ws @ s \<and> blankRunes ws \<and> (s = [] \<or> \<not> isSpace (fst (decodeRune s)))"
      using "2.IH"(2) [of r rest] sk nl rn True
      by (auto simp: r_def rest_def w_def simp del: decodeRune.simps(2))
    then obtain ws where ws: "rest = ws @ s" "blankRunes ws"
        "s = [] \<or> \<not> isSpace (fst (decodeRune s))" by blast
    have ne: "r \<noteq> RuneError" using True by (rule isSpace_not_RuneError)
    have wl: "0 < w \<and> w \<le> length (c # cs)"
      using decodeRune_width [of "c # cs"] ne by (simp add: r_def w_def del: decodeRune.simps(2))
    have dec: "decodeRune (c # cs) = (r, w)" by (simp add: r_def w_def del: decodeRune.simps(2))
    have tk: "decodeRune (take w (c # cs)) = (r, w)"
      using decodeRune_take_aux [OF dec ne] .
    have tkc: "take w (c # cs) = c # take (w - 1) cs" using wl by (cases w) simp_all
    have tka: "decodeRune (c # (take (w - 1) cs @ ws)) = (r, w)"
      using decodeRune_append [of "take w (c # cs)" ws] tk ne by (simp add: tkc del: decodeRune.simps(2))
    have len: "length (take (w - 1) cs) = w - 1" using wl by auto
    have "blankRunes (c # (take (w - 1) cs @ ws))"
      unfolding blankRunes_Cons tka using True rn ws(2) len by simp
    moreover have "c # cs = (c # (take (w - 1) cs @ ws)) @ s"
    proof -
      have "cs = take (w - 1) cs @ drop (w - 1) cs" by simp
      then have "cs = take (w - 1) cs @ ws @ s" using ws(1) by (simp only: rest_def)
      then show ?thesis by simp
    qed
    ultimately show ?thesis using ws(3) by blast
  qed
qed

lemma takeWhile_digits:
  "list_all isDigit ds \<Longrightarrow> rest = [] \<or> \<not> isDigit (hd rest) \<Longrightarrow>
     takeWhile isDigit (ds @ rest) = ds"
  by (cases rest) (auto simp: list_all_iff takeWhile_append)

lemma isDigit_start:
  "isDigit c \<Longrightarrow> \<not> isSpace (fst (decodeRune (c # cs))) \<and> c \<noteq> CHR ''+'' \<and> c \<noteq> CHR ''-''"
  by (auto simp: isDigit_def isSpace_def)

lemma sign_start:
  "c = CHR ''+'' \<or> c = CHR ''-'' \<Longrightarrow> \<not> isSpace (fst (decodeRune (c # cs))) \<and> \<not> isDigit c"
  by (auto simp: isDigit_def isSpace_def)

lemma ParseInt_plain:
  "ds \<noteq> [] \<Longrightarrow> list_all isDigit ds \<Longrightarrow> digitsVal ds < 2 ^ 63 \<Longrightarrow>
     ParseInt ds = Some (digitsVal ds)"
  using isDigit_start [of "hd ds" "[]"] by (cases ds) (auto simp: ParseInt_def)

lemma ParseInt_plus:
  "ds \<noteq> [] \<Longrightarrow> list_all isDigit ds \<Longrightarrow> digitsVal ds < 2 ^ 63 \<Longrightarrow>
     ParseInt (CHR ''+'' # ds) = Some (digitsVal ds)"
  by (simp add: ParseInt_def)

lemma ParseInt_minus:
  "ds \<noteq> [] \<Longrightarrow> list_all isDigit ds \<Longrightarrow> - (2 ^ 63) \<le> - digitsVal ds \<Longrightarrow>
     ParseInt (CHR ''-'' # ds) = Some (- digitsVal ds)"
  by (simp add: ParseInt_def)

lemma Sscanf_d_after_space:
  "skipSpace p = Some s \<Longrightarrow> skipSpace s = Some s \<Longrightarrow> s \<noteq> [] \<Longrightarrow>
     Sscanf_d p =
       (let sgn = (if hd s = CHR ''+'' \<or> hd s = CHR ''-'' then [hd s] else []);
            s3 = (if hd s = CHR ''+'' \<or> hd s = CHR ''-'' then tl s else s)
        in if s3 = [] then None
           else if \<not> isDigit (hd s3) then None
           else ParseInt (sgn @ takeWhile isDigit s3))"
  by (simp add: Sscanf_d_def del: skipSpace.simps)

lemma leadingInteger_Sscanf_d:
  assumes "leadingInteger p n"
  shows "Sscanf_d p = Some n"
proof -
  from assms obtain ws sgn ds rest where
    p: "p = ws @ sgn @ ds @ rest" and ws: "blankRunes ws"
    and sgn: "sgn = [] \<or> sgn = ''+'' \<or> sgn = ''-''"
    and ds: "ds \<noteq> []" "list_all isDigit ds"
    and rest: "rest = [] \<or> \<not> isDigit (hd rest)"
    and n: "n = (if sgn = ''-'' then - digitsVal ds else digitsVal ds)"
    and range: "- (2 ^ 63) \<le> n" "n < 2 ^ 63"
    unfolding leadingInteger_def by blast
  obtain d ds' where d: "ds = d # ds'" using ds(1) by (cases ds) simp_all
  have dd: "isDigit d" using ds(2) d by simp
  have ns: "d \<noteq> CHR ''+''" "d \<noteq> CHR ''-''" using isDigit_start [OF dd, of "[]"] by simp_all
  define s where "s = sgn @ ds @ rest"
  have sne: "s \<noteq> []" using ds(1) by (simp add: s_def)
  have "\<not> isSpace (fst (decodeRune s))"
  proof -
    consider "sgn = []" | "sgn = ''+''" | "sgn = ''-''" using sgn by blast
    then show ?thesis
    proof cases
      case 1
      have sv: "s = d # ds' @ rest" by (simp add: s_def 1 d)
      have "\<not> isSpace (fst (decodeRune (d # ds' @ rest)))"
        using isDigit_start [OF dd, of "ds' @ rest"] by blast
      then show ?thesis unfolding sv .
    next
      case 2
      have sv: "s = CHR ''+'' # ds @ rest" by (simp add: s_def 2)
      have "\<not> isSpace (fst (decodeRune (CHR ''+'' # ds @ rest)))"
        using sign_start [of "CHR ''+''" "ds @ rest"] by blast
      then show ?thesis unfolding sv .
    next
      case 3
      have sv: "s = CHR ''-'' # ds @ rest" by (simp add: s_def 3)
      have "\<not> isSpace (fst (decodeRune (CHR ''-'' # ds @ rest)))"
        using sign_start [of "CHR ''-''" "ds @ rest"] by blast
      then show ?thesis unfolding sv .
    qed
  qed
  then have st: "s = [] \<or> \<not> isSpace (fst (decodeRune s))" by simp
  have s1: "skipSpace p = Some s"
    using skipSpace_blank [OF ws st] by (simp only: p s_def)
  have s2: "skipSpace s = Some s" using st by (rule skipSpace_start)
  have tw: "takeWhile isDigit (ds @ rest) = ds" using ds(2) rest by (rule takeWhile_digits)
  have twd: "takeWhile isDigit (ds' @ rest) = ds'"
    using tw dd by (simp add: d)
  note eq = Sscanf_d_after_space [OF s1 s2 sne]
  consider "sgn = []" | "sgn = ''+''" | "sgn = ''-''" using sgn by blast
  then show ?thesis
  proof cases
    case 1
    have pi: "ParseInt (d # ds') = Some n" using ParseInt_plain [OF ds] n range 1 by (simp add: d)
    have sv: "s = d # ds' @ rest" by (simp add: s_def 1 d)
    show ?thesis unfolding eq sv using dd ns pi by (simp add: twd)
  next
    case 2
    have pi: "ParseInt (CHR ''+'' # d # ds') = Some n"
      using ParseInt_plus [OF ds] n range 2 by (simp add: d)
    have sv: "s = CHR ''+'' # d # ds' @ rest" by (simp add: s_def 2 d)
    show ?thesis unfolding eq sv using dd pi by (simp add: twd)
  next
    case 3
    have pi: "ParseInt (CHR ''-'' # d # ds') = Some n"
      using ParseInt_minus [OF ds] n range 3 by (simp add: d)
    have sv: "s = CHR ''-'' # d # ds' @ rest" by (simp add: s_def 3 d)
    show ?thesis unfolding eq sv using dd pi by (simp add: twd)
  qed
qed

lemma foldl_digits_nonneg:
  "list_all isDigit ds \<Longrightarrow> 0 \<le> a \<Longrightarrow>
     0 \<le> foldl (\<lambda>n c. 10 * n + (int (of_char c) - 0x30)) a ds"
proof (induction ds arbitrary: a)
  case Nil
  then show ?case by simp
next
  case (Cons c ds)
  have "0 \<le> 10 * a + (int (of_char c) - 0x30)"
    using Cons.prems by (simp add: isDigit_def)
  then show ?case using Cons.IH Cons.prems(1) by simp
qed

lemma digitsVal_nonneg: "list_all isDigit ds \<Longrightarrow> 0 \<le> digitsVal ds"
  using foldl_digits_nonneg [of ds 0] by (simp add: digitsVal_def)

lemma ParseInt_Some:
  assumes "ParseInt (sg @ ds) = Some n" and "sg = [] \<or> sg = ''+'' \<or> sg = ''-''"
    and "ds \<noteq> []" and "isDigit (hd ds)"
  shows "n = (if sg = ''-'' then - digitsVal ds else digitsVal ds)
         \<and> - (2 ^ 63) \<le> n \<and> n < 2 ^ 63 \<and> list_all isDigit ds"
proof -
  obtain d ds' where d: "ds = d # ds'" using assms(3) by (cases ds) simp_all
  have dd: "isDigit d" using assms(4) d by simp
  have ns: "d \<noteq> CHR ''+''" "d \<noteq> CHR ''-''" using isDigit_start [OF dd, of "[]"] by simp_all
  have nn: "list_all isDigit ds \<Longrightarrow> 0 \<le> digitsVal ds" by (rule digitsVal_nonneg)
  consider "sg = []" | "sg = ''+''" | "sg = ''-''" using assms(2) by blast
  then show ?thesis
  proof cases
    case 1
    then show ?thesis using assms(1) ns nn dd by (auto simp: ParseInt_def Let_def d split: if_splits)
  next
    case 2
    then show ?thesis using assms(1) nn dd by (auto simp: ParseInt_def Let_def d split: if_splits)
  next
    case 3
    then show ?thesis using assms(1) nn dd by (auto simp: ParseInt_def Let_def d split: if_splits)
  qed
qed

lemma Sscanf_d_leadingInteger:
  assumes "Sscanf_d p = Some n"
  shows "leadingInteger p n"
proof -
  from assms obtain s1 where s1: "skipSpace p = Some s1"
    by (auto simp: Sscanf_d_def split: option.splits)
  from skipSpace_Some [OF s1] obtain ws where
    ws: "p = ws @ s1" "blankRunes ws" "s1 = [] \<or> \<not> isSpace (fst (decodeRune s1))" by blast
  have s2: "skipSpace s1 = Some s1" using ws(3) by (rule skipSpace_start)
  define sgn where "sgn = (if hd s1 = CHR ''+'' \<or> hd s1 = CHR ''-'' then [hd s1] else [])"
  define s3 where "s3 = (if hd s1 = CHR ''+'' \<or> hd s1 = CHR ''-'' then tl s1 else s1)"
  have s1ne: "s1 \<noteq> []"
    using assms by (auto simp: Sscanf_d_def s1 s2 split: if_splits simp del: skipSpace.simps)
  have body: "s1 \<noteq> []" "s3 \<noteq> []" "isDigit (hd s3)"
      "ParseInt (sgn @ takeWhile isDigit s3) = Some n"
    using assms s1ne unfolding Sscanf_d_after_space [OF s1 s2 s1ne] sgn_def s3_def Let_def
    by (auto split: if_splits)
  have split: "s1 = sgn @ s3" using body(1) by (cases s1) (auto simp: sgn_def s3_def)
  have sg: "sgn = [] \<or> sgn = ''+'' \<or> sgn = ''-''" by (auto simp: sgn_def)
  define ds where "ds = takeWhile isDigit s3"
  define rest where "rest = dropWhile isDigit s3"
  have s3: "s3 = ds @ rest" by (simp add: ds_def rest_def)
  have dne: "ds \<noteq> []" "isDigit (hd ds)"
    using body(2,3) by (cases s3; simp add: ds_def)+
  have rst: "rest = [] \<or> \<not> isDigit (hd rest)"
    using hd_dropWhile [of isDigit s3] by (auto simp: rest_def)
  have pi: "n = (if sgn = ''-'' then - digitsVal ds else digitsVal ds)
         \<and> - (2 ^ 63) \<le> n \<and> n < 2 ^ 63 \<and> list_all isDigit ds"
    using ParseInt_Some [OF _ sg dne] body(4) by (simp add: ds_def)
  have "p = ws @ sgn @ ds @ rest" using ws(1) split s3 by simp
  then show ?thesis
    unfolding leadingInteger_def using ws(2) sg dne(1) rst pi by blast
qed

lemma Sscanf_d_iff: "Sscanf_d p = Some n \<longleftrightarrow> leadingInteger p n"
  using leadingInteger_Sscanf_d Sscanf_d_leadingInteger by blast

text \<open>Definitions to unfold when a concrete input is evaluated.\<close>

lemmas string_eval =
  TrimSpace_def trimRightSpace.simps decodeLastRune_def isSpace_def Split_def
  ruleName_of_def ruleValue_of_def quoted_def

lemmas scan_eval =
  parseInt_def Sscanf_d_def ParseInt_def isDigit_def digitsVal_def isSpace_def

lemmas regex_eval =
  MatchString_def emailRegex_def urlRegex_def Plus_def Opt_def Chr_def alnum_def alpha_def
  between_def oneOf_def perlSpace_def

lemma Validate_struct:
  "Validate re (GStruct fs) =
     (if violations re fs = [] then None
      else Some (''validation failed: '' @ Join (violations re fs) ''; ''))"
  by (simp add: Validate_def validateFields_violations)

lemma Validate_ptr_struct:
  "Validate re (GPtr (Some (GStruct fs))) = Validate re (GStruct fs)"
  by (simp add: Validate_def)

lemma violations_filter:
  "violations re (filter (\<lambda>f. IsExported f \<and> Tag_validate f \<noteq> []) fs) = violations re fs"
  by (simp add: violations_def)

lemma violations_append:
  "violations re (xs @ ys) = violations re xs @ violations re ys"
  by (simp add: violations_def)

lemma violations_unexported:
  "violations re (Field n False t v # fs) = violations re fs"
  by (simp add: violations_def)

section \<open>The claims\<close>

subsection \<open>C1: an unrecognized rule name\<close>

text \<open>
  C1, as stated: for a field whose declaration contains an unrecognized rule name, the
  failure \<open>unknown validation rule: <name>\<close> is reported and the evaluation of the
  field's remaining rules stops, so that no rule declared after the unrecognized one
  contributes a violation. The loop of \<open>validateField\<close> has no \<open>break\<close>: for the tag
  \<open>unknown_rule,required\<close> on an empty text the aggregate error holds the violation of
  \<open>required\<close> after the unknown-rule failure.
\<close>

theorem C1_counterexample:
  "Validate compile_none (GStruct [Field ''Field'' True ''unknown_rule,required'' (GString '''')])
     = Some ''validation failed: unknown validation rule: unknown_rule; field 'Field' is required''"
  by (simp add: Validate_def validateField_def applyRule_def string_eval)

text \<open>
  C1, amended: for a field whose declaration contains an unrecognized rule name, the
  failure \<open>unknown validation rule: <name>\<close> is reported at the place of that rule, and
  the evaluation goes on: the outcome of the field is what the rules before it report,
  then this failure, then what the rules after it report.
\<close>

theorem unknown_rule_then_rest:
  assumes "Split tag CHR '','' = pre @ rule # post"
    and "TrimSpace rule \<noteq> []"
    and "ruleName_of (Split (TrimSpace rule) CHR ''='') = n"
    and "n \<notin> {''required'', ''min'', ''max'', ''email'', ''url'', ''pattern''}"
  shows "validateField re name v tag =
           validateRules re name v pre [] @ [''unknown validation rule: '' @ n]
             @ validateRules re name v post []"
proof -
  have "ruleErrors re name v rule = [''unknown validation rule: '' @ n]"
    using assms(2,3,4) by (simp add: ruleErrors_def applyRule_def)
  then show ?thesis
    using assms(1) by (simp add: validateField_def validateRules_append validateRules_Cons
        del: validateRules.simps(2))
qed

theorem unknown_rule_then_rest_witness:
  "Split ''unknown_rule,required'' CHR '','' = [] @ ''unknown_rule'' # [''required'']
   \<and> TrimSpace ''unknown_rule'' \<noteq> []
   \<and> ruleName_of (Split (TrimSpace ''unknown_rule'') CHR ''='') = ''unknown_rule''
   \<and> ''unknown_rule'' \<notin> {''required'', ''min'', ''max'', ''email'', ''url'', ''pattern''}
   \<and> validateField compile_none ''Field'' (GString '''') ''unknown_rule,required''
       = [''unknown validation rule: unknown_rule'', ''field 'Field' is required'']"
proof -
  have h1: "Split ''unknown_rule,required'' CHR '','' = [] @ ''unknown_rule'' # [''required'']"
    by (simp add: Split_def)
  have h2: "TrimSpace ''unknown_rule'' \<noteq> []"
    by (simp add: string_eval)
  have h3: "ruleName_of (Split (TrimSpace ''unknown_rule'') CHR ''='') = ''unknown_rule''"
    by (simp add: string_eval)
  have h4: "''unknown_rule'' \<notin> {''required'', ''min'', ''max'', ''email'', ''url'', ''pattern''}"
    by simp
  show ?thesis
    using h1 h2 h3 h4
      unknown_rule_then_rest [OF h1 h2 h3 h4, of compile_none "''Field''" "GString ''''"]
    by (simp add: applyRule_def string_eval)
qed

subsection \<open>C2: every rule of a field is evaluated\<close>

text \<open>
  C2: all the rules of a field are evaluated, in the declared order, whatever the
  earlier ones reported, and the message of every failing rule is in the outcome of the
  field: the outcome is the concatenation, over the pieces of the tag in order, of what
  each piece reports taken alone.
\<close>

theorem all_rules_evaluated:
  "validateField re name v tag = concat (map (ruleErrors re name v) (Split tag CHR '',''))"
  by (simp add: validateField_def validateRules_concat)

theorem all_rules_evaluated_witness:
  "validateField compile_none ''Name'' (GString '''') ''required,min=2''
     = [''field 'Name' is required'', ''field 'Name' must be at least 2 characters'']"
  using all_rules_evaluated [of compile_none "''Name''" "GString ''''" "''required,min=2''"]
  by (simp add: ruleErrors_def applyRule_def string_eval scan_eval)

subsection \<open>C3: a parameter of \<open>min\<close> or \<open>max\<close> that is no integer\<close>

text \<open>
  C3, as stated: a parameter of \<open>min\<close> or \<open>max\<close> that cannot be parsed as an integer
  counts as the integer 0, so that \<open>min\<close> with such a parameter passes for every
  length. The text \<open>12abc\<close> is no integer, but \<open>Sscanf\<close> reads the digits at its start
  and leaves the rest unread: the parameter counts as 12, and \<open>min=12abc\<close> fails on a text
  of two bytes.
\<close>

theorem C3_counterexample:
  "parseInt ''12abc'' = 12
   \<and> validateMin ''Name'' (GString ''ab'') ''12abc''
       = Some ''field 'Name' must be at least 12abc characters''"
  by (simp add: scan_eval quoted_def)

text \<open>
  C3, amended: when the parameter of a \<open>min\<close> or \<open>max\<close> rule does not start with an
  integer (after optional white space, an optional sign and at least one decimal digit,
  within the range of 64 bits), it counts as the integer 0: \<open>parseInt\<close> returns 0,
  \<open>min\<close> passes for every length and for every integer that is not negative, and both
  rules pass or fail exactly as they do with the parameter \<open>0\<close>. There is no parse error
  and no failure of another kind: a negative integer under \<open>min\<close> gets the usual
  message, with the parameter as it was written. A parameter that starts with an integer
  counts as that integer, whatever follows the digits.
\<close>

theorem unparsable_parameter_is_zero:
  "(leadingInteger p n \<longrightarrow> parseInt p = n)
   \<and> ((\<forall>k. \<not> leadingInteger p k) \<longrightarrow>
        parseInt p = 0
        \<and> validateMin name (GString s) p = None
        \<and> validateMin name (GSlice xs) p = None
        \<and> (0 \<le> i \<longrightarrow> validateMin name (GInt i) p = None)
        \<and> (i < 0 \<longrightarrow> validateMin name (GInt i) p
               = Some (''field '' @ quoted name @ '' must be at least '' @ p))
        \<and> (validateMin name v p = None \<longleftrightarrow> validateMin name v ''0'' = None)
        \<and> (validateMax name v p = None \<longleftrightarrow> validateMax name v ''0'' = None))"
proof -
  have some: "parseInt p = n" if "leadingInteger p n"
  proof -
    have sc: "Sscanf_d p = Some n" using that by (rule leadingInteger_Sscanf_d)
    have "Sscanf_d [] = None" by (simp add: Sscanf_d_def)
    with sc have "p \<noteq> []" by auto
    then show ?thesis using sc by (simp add: parseInt_def)
  qed
  have zero: "parseInt p = 0
        \<and> validateMin name (GString s) p = None
        \<and> validateMin name (GSlice xs) p = None
        \<and> (0 \<le> i \<longrightarrow> validateMin name (GInt i) p = None)
        \<and> (i < 0 \<longrightarrow> validateMin name (GInt i) p
               = Some (''field '' @ quoted name @ '' must be at least '' @ p))
        \<and> (validateMin name v p = None \<longleftrightarrow> validateMin name v ''0'' = None)
        \<and> (validateMax name v p = None \<longleftrightarrow> validateMax name v ''0'' = None)"
    if none: "\<forall>k. \<not> leadingInteger p k"
  proof -
    have "Sscanf_d p = None"
    proof (cases "Sscanf_d p")
      case (Some k)
      then have "leadingInteger p k" by (rule Sscanf_d_leadingInteger)
      with none show ?thesis by blast
    qed simp
    then have z: "parseInt p = 0" by (simp add: parseInt_def)
    have z0: "parseInt ''0'' = 0" by (simp add: scan_eval)
    have mn: "validateMin name v p = None \<longleftrightarrow> validateMin name v ''0'' = None"
      by (cases v) (simp_all add: z z0)
    have mx: "validateMax name v p = None \<longleftrightarrow> validateMax name v ''0'' = None"
      by (cases v) (simp_all add: z z0)
    show ?thesis using mn mx by (simp add: z)
  qed
  show ?thesis using some zero by blast
qed

theorem unparsable_parameter_is_zero_witness:
  "leadingInteger ''12abc'' 12
   \<and> parseInt ''12abc'' = 12
   \<and> (\<forall>k. \<not> leadingInteger ''abc'' k)
   \<and> parseInt ''abc'' = 0
   \<and> validateMin ''Age'' (GString []) ''abc'' = None
   \<and> validateMin ''Age'' (GInt 0) ''abc'' = None
   \<and> validateMin ''Age'' (GInt (- 1)) ''abc'' = Some ''field 'Age' must be at least abc''
   \<and> validateMax ''Age'' (GString ''x'') ''abc'' \<noteq> None"
proof -
  have "Sscanf_d ''12abc'' = Some 12" by (simp add: scan_eval)
  then have h1: "leadingInteger ''12abc'' 12" by (rule Sscanf_d_leadingInteger)
  have "Sscanf_d ''abc'' = None" by (simp add: scan_eval)
  then have h2: "\<forall>k. \<not> leadingInteger ''abc'' k"
    using leadingInteger_Sscanf_d [of "''abc''"] by auto
  have m0: "validateMax ''Age'' (GString ''x'') ''0'' \<noteq> None" by (simp add: scan_eval)
  show ?thesis
    using h1 h2 m0
      unparsable_parameter_is_zero [where p = "''12abc''" and n = 12]
      unparsable_parameter_is_zero [where p = "''abc''" and name = "''Age''" and s = "[]"
        and i = 0 and v = "GString ''x''"]
      unparsable_parameter_is_zero [where p = "''abc''" and name = "''Age''" and i = "- 1"]
    by (simp add: quoted_def)
qed

subsection \<open>C4: a nil pointer and a value that is no struct\<close>

text \<open>
  C4, as stated: every null or absent record reference fails with
  \<open>validation target cannot be nil\<close>, and \<open>validation target must be a struct\<close> is for
  the inputs that are not null. The test for nil is made on pointers only
  (\<open>value.Kind() == reflect.Ptr\<close>): the call \<open>Validate(nil)\<close>, whose argument is the nil
  interface, has the kind \<open>Invalid\<close>, passes that test and fails with the message for a
  value that is no struct.
\<close>

theorem C4_counterexample:
  "Validate compile_none GNil = Some ''validation target must be a struct''
   \<and> Validate compile_none GNil \<noteq> Some ''validation target cannot be nil''"
  by (simp add: Validate_def)

text \<open>
  C4, amended: \<open>Validate\<close> on a nil pointer fails with
  \<open>validation target cannot be nil\<close>; on every other input that is neither a struct nor
  a pointer to a struct it fails with \<open>validation target must be a struct\<close>: this
  covers a pointer to something that is no struct and also the nil interface, which is
  null but no pointer. The two messages differ, and the result is one of these two
  messages as it stands: no error of a field is part of it.
\<close>

theorem Validate_nil_and_non_struct:
  "Validate re (GPtr None) = Some ''validation target cannot be nil''
   \<and> (data \<noteq> GPtr None
        \<and> (\<forall>fields. data \<noteq> GStruct fields \<and> data \<noteq> GPtr (Some (GStruct fields)))
      \<longrightarrow> Validate re data = Some ''validation target must be a struct'')
   \<and> ''validation target cannot be nil'' \<noteq> ''validation target must be a struct''"
proof -
  have nil: "Validate re (GPtr None) = Some ''validation target cannot be nil''"
    by (simp add: Validate_def)
  have other: "Validate re data = Some ''validation target must be a struct''"
    if "data \<noteq> GPtr None"
      and "\<forall>fields. data \<noteq> GStruct fields \<and> data \<noteq> GPtr (Some (GStruct fields))"
  proof (cases data)
    case (GPtr q)
    with that(1) have "q \<noteq> None" by simp
    then obtain elem where q: "q = Some elem" by (cases q) simp_all
    have "\<forall>fields. elem \<noteq> GStruct fields" using that(2) GPtr q by simp
    then show ?thesis using GPtr q by (cases elem) (simp_all add: Validate_def)
  qed (use that in \<open>simp_all add: Validate_def\<close>)
  show ?thesis using nil other by simp
qed

theorem Validate_nil_and_non_struct_witness:
  "GString ''not a struct'' \<noteq> GPtr None
   \<and> (\<forall>fields. GString ''not a struct'' \<noteq> GStruct fields
                \<and> GString ''not a struct'' \<noteq> GPtr (Some (GStruct fields)))
   \<and> Validate compile_none (GPtr None) = Some ''validation target cannot be nil''
   \<and> Validate compile_none (GString ''not a struct'') = Some ''validation target must be a struct''"
  using Validate_nil_and_non_struct [of compile_none "GString ''not a struct''"]
  by simp

subsection \<open>C5: the aggregate error\<close>

text \<open>
  C5, as stated: a record whose rules are all satisfied gives no error, and a record
  with a violation gives one error whose message is the violation messages joined with
  \<open>; \<close>. The message of the code is not that join: it starts with the words
  \<open>validation failed: \<close>.
\<close>

theorem C5_counterexample:
  "Validate compile_none (GStruct [Field ''Name'' True ''required'' (GString '''')])
     = Some ''validation failed: field 'Name' is required''
   \<and> Join (violations compile_none [Field ''Name'' True ''required'' (GString '''')]) ''; ''
     = ''field 'Name' is required''"
  by (simp add: Validate_def validateField_def violations_def ruleErrors_def applyRule_def
      string_eval)

text \<open>
  C5, amended: a record (given directly or through a pointer) without any violation
  gives no error; a record with at least one violation gives exactly one error, whose
  message is \<open>validation failed: \<close> followed by all the violation messages joined
  with \<open>; \<close>, in the declaration order of the fields and, within a field, in the
  declaration order of the rules.
\<close>

theorem Validate_aggregate:
  "Validate re (GStruct fields) =
     (if violations re fields = [] then None
      else Some (''validation failed: '' @ Join (violations re fields) ''; ''))
   \<and> Validate re (GPtr (Some (GStruct fields))) = Validate re (GStruct fields)"
  by (simp add: Validate_struct Validate_ptr_struct)

theorem Validate_aggregate_witness:
  "Validate compile_none (GStruct
      [Field ''Name'' True ''required,min=2'' (GString ''John''),
       Field ''Age'' True ''min=18,max=120'' (GInt 25)]) = None
   \<and> Validate compile_none (GStruct
      [Field ''Name'' True ''required,min=2'' (GString ''''),
       Field ''note'' False ''required'' (GString ''''),
       Field ''Age'' True ''min=18,max=120'' (GInt 17)])
     = Some ''validation failed: field 'Name' is required; field 'Name' must be at least 2 characters; field 'Age' must be at least 18''"
  using
    Validate_aggregate [of compile_none
      "[Field ''Name'' True ''required,min=2'' (GString ''John''),
        Field ''Age'' True ''min=18,max=120'' (GInt 25)]"]
    Validate_aggregate [of compile_none
      "[Field ''Name'' True ''required,min=2'' (GString ''''),
        Field ''note'' False ''required'' (GString ''''),
        Field ''Age'' True ''min=18,max=120'' (GInt 17)]"]
  by (simp add: violations_def ruleErrors_def applyRule_def string_eval scan_eval)

subsection \<open>C6: the rule \<open>email\<close>\<close>

text \<open>
  C6: on a text value the rule \<open>email\<close> accepts \<open>user.name@domain.co.uk\<close> and
  \<open>test+tag@example.org\<close>, and rejects \<open>invalid-email\<close>, \<open>@example.com\<close>, \<open>john@\<close>,
  \<open>john@.com\<close> and the empty text with the invalid-email message; on a value that is not
  of type \<open>string\<close> it reports a type mismatch, which is another message.
\<close>

theorem email_rule:
  "validateEmail name (GString ''user.name@domain.co.uk'') = None
   \<and> validateEmail name (GString ''test+tag@example.org'') = None
   \<and> validateEmail name (GString ''invalid-email'')
       = Some (''field '' @ quoted name @ '' must be a valid email address'')
   \<and> validateEmail name (GString ''@example.com'')
       = Some (''field '' @ quoted name @ '' must be a valid email address'')
   \<and> validateEmail name (GString ''john@'')
       = Some (''field '' @ quoted name @ '' must be a valid email address'')
   \<and> validateEmail name (GString ''john@.com'')
       = Some (''field '' @ quoted name @ '' must be a valid email address'')
   \<and> validateEmail name (GString '''')
       = Some (''field '' @ quoted name @ '' must be a valid email address'')
   \<and> ((\<forall>str. v \<noteq> GString str) \<longrightarrow>
          validateEmail name v
            = Some (''field '' @ quoted name @ '' must be a string for email validation''))
   \<and> ''field '' @ quoted name @ '' must be a string for email validation''
       \<noteq> ''field '' @ quoted name @ '' must be a valid email address''"
proof -
  have a1: "MatchString emailRegex ''user.name@domain.co.uk''" by (simp add: regex_eval)
  have a2: "MatchString emailRegex ''test+tag@example.org''" by (simp add: regex_eval)
  have r1: "\<not> MatchString emailRegex ''invalid-email''" by (simp add: regex_eval)
  have r2: "\<not> MatchString emailRegex ''@example.com''" by (simp add: regex_eval)
  have r3: "\<not> MatchString emailRegex ''john@''" by (simp add: regex_eval)
  have r4: "\<not> MatchString emailRegex ''john@.com''" by (simp add: regex_eval)
  have r5: "\<not> MatchString emailRegex ''''" by (simp add: regex_eval)
  have ty: "(\<forall>str. v \<noteq> GString str) \<longrightarrow>
          validateEmail name v
            = Some (''field '' @ quoted name @ '' must be a string for email validation'')"
    by (cases v) simp_all
  show ?thesis using a1 a2 r1 r2 r3 r4 r5 ty by simp
qed

theorem email_rule_witness:
  "(\<forall>str. GInt 5 \<noteq> GString str)
   \<and> validateEmail ''Email'' (GInt 5) = Some ''field 'Email' must be a string for email validation''
   \<and> validateEmail ''Email'' (GString ''john@.com'') = Some ''field 'Email' must be a valid email address''
   \<and> validateEmail ''Email'' (GString ''test+tag@example.org'') = None"
  using email_rule [of "''Email''" "GInt 5"]
  by (simp add: quoted_def)

subsection \<open>C7: the rule \<open>url\<close>\<close>

text \<open>
  C7: on a text value the rule \<open>url\<close> passes on the empty text and on
  \<open>https://example.com\<close>, and fails on \<open>ftp://example.com\<close> and on \<open>invalid-url\<close>.
\<close>

theorem url_rule:
  "validateURL name (GString '''') = None
   \<and> validateURL name (GString ''https://example.com'') = None
   \<and> validateURL name (GString ''ftp://example.com'')
       = Some (''field '' @ quoted name @ '' must be a valid URL'')
   \<and> validateURL name (GString ''invalid-url'')
       = Some (''field '' @ quoted name @ '' must be a valid URL'')"
proof -
  have a: "MatchString urlRegex ''https://example.com''" by (simp add: regex_eval)
  have r1: "\<not> MatchString urlRegex ''ftp://example.com''" by (simp add: regex_eval)
  have r2: "\<not> MatchString urlRegex ''invalid-url''" by (simp add: regex_eval)
  show ?thesis using a r1 r2 by simp
qed

subsection \<open>C8: fields that are skipped\<close>

text \<open>
  C8: fields without a rule declaration and unexported fields contribute nothing: the
  outcome of \<open>Validate\<close> on a record is its outcome on the record restricted to the
  exported fields that carry a declaration; an unexported field can be removed whatever
  its declaration and its value are (its rules are never evaluated), and so can a field
  with an empty declaration.
\<close>

theorem skipped_fields:
  "Validate re (GStruct fields)
     = Validate re (GStruct (filter (\<lambda>f. IsExported f \<and> Tag_validate f \<noteq> []) fields))
   \<and> Validate re (GStruct (pre @ Field n False t v # post)) = Validate re (GStruct (pre @ post))
   \<and> Validate re (GStruct (pre @ Field n e [] v # post)) = Validate re (GStruct (pre @ post))"
proof -
  have "violations re (Field n e [] v # post) = violations re post"
    by (simp add: violations_def)
  then show ?thesis
    by (simp add: Validate_struct violations_filter violations_append violations_unexported)
qed

theorem skipped_fields_witness:
  "Validate compile_none (GStruct
      [Field ''Name'' True ''required'' (GString ''''),
       Field ''secret'' False ''required,email'' (GString ''''),
       Field ''Note'' True '''' (GInt 0)])
   = Validate compile_none (GStruct [Field ''Name'' True ''required'' (GString '''')])
   \<and> Validate compile_none (GStruct [Field ''secret'' False ''required,email'' (GString '''')]) = None"
  using
    skipped_fields [of compile_none
      "[Field ''Name'' True ''required'' (GString ''''),
        Field ''secret'' False ''required,email'' (GString ''''),
        Field ''Note'' True '''' (GInt 0)]" "[]" "''secret''" "''required,email''" "GString ''''" "[]"]
  by (simp add: Validate_def)

subsection \<open>C9: a parameter that contains the separator \<open>=\<close>\<close>

text \<open>
  C9: when the text of a rule, trimmed, is \<open>name=param=rest\<close> with no \<open>=\<close> in \<open>name\<close>
  nor in \<open>param\<close>, the rule is applied with the parameter \<open>param\<close>: what follows the
  second \<open>=\<close> is dropped without any error. The rule \<open>pattern=^a=b$\<close> is evaluated with
  the parameter \<open>^a\<close>.
\<close>

theorem parameter_cut_at_second_separator:
  assumes "CHR ''='' \<notin> set n" and "CHR ''='' \<notin> set p"
    and "TrimSpace rule = n @ ''='' @ p @ ''='' @ rest"
  shows "ruleName_of (Split (TrimSpace rule) CHR ''='') = n
     \<and> ruleValue_of (Split (TrimSpace rule) CHR ''='') = p
     \<and> validateRules re name v (rule # rules) errors
         = validateRules re name v rules
             (errors @ (case applyRule re name v n p of Some err \<Rightarrow> [err] | None \<Rightarrow> []))"
proof -
  have sp: "Split (TrimSpace rule) CHR ''='' = n # p # splitFrom [] rest CHR ''=''"
    using assms splitFrom_first [of "CHR ''=''" n "[]" "p @ ''='' @ rest"]
      splitFrom_first [of "CHR ''=''" p "[]" rest]
    by (simp add: Split_def)
  have ne: "TrimSpace rule \<noteq> []" using assms(3) by simp
  show ?thesis
    using ne by (simp add: sp ruleName_of_def ruleValue_of_def split: option.split)
qed

theorem parameter_cut_at_second_separator_witness:
  "CHR ''='' \<notin> set ''pattern'' \<and> CHR ''='' \<notin> set ''^a''
   \<and> TrimSpace ''pattern=^a=b$'' = ''pattern'' @ ''='' @ ''^a'' @ ''='' @ ''b$''
   \<and> ruleValue_of (Split (TrimSpace ''pattern=^a=b$'') CHR ''='') = ''^a''
   \<and> validateField compile_none ''Code'' (GString ''a=b'') ''pattern=^a=b$''
       = (case validatePattern compile_none ''Code'' (GString ''a=b'') ''^a'' of
            Some err \<Rightarrow> [err] | None \<Rightarrow> [])"
proof -
  have h1: "CHR ''='' \<notin> set ''pattern''" by simp
  have h2: "CHR ''='' \<notin> set ''^a''" by simp
  have h3: "TrimSpace ''pattern=^a=b$'' = ''pattern'' @ ''='' @ ''^a'' @ ''='' @ ''b$''"
    by (simp add: string_eval)
  show ?thesis
    using h1 h2 h3
      parameter_cut_at_second_separator [OF h1 h2 h3, of compile_none "''Code''" "GString ''a=b''" "[]" "[]"]
    by (simp add: validateField_def Split_def applyRule_def del: validateRules.simps(2))
qed

subsection \<open>C10: rules applied outside the kinds they are meant for\<close>

text \<open>
  C10: \<open>required\<close> on an integer (0 included), a boolean or a floating-point value
  passes, and so do \<open>min\<close> and \<open>max\<close> on a boolean, a map, a floating-point value or a
  nested struct, whatever the parameter; more generally \<open>required\<close> passes on every
  value whose kind its \<open>switch\<close> does not list, and so do \<open>min\<close> and \<open>max\<close>; whereas
  \<open>email\<close>, \<open>url\<close> and \<open>pattern\<close> report a type mismatch on every value that is not of
  type \<open>string\<close>.
\<close>

theorem silent_pass_outside_applicability:
  "validateRequired name (GInt i) = None
   \<and> validateRequired name (GBool b) = None
   \<and> validateRequired name (GFloat x) = None
   \<and> validateMin name (GBool b) param = None
   \<and> validateMin name (GMap m) param = None
   \<and> validateMin name (GFloat x) param = None
   \<and> validateMin name (GStruct fields) param = None
   \<and> validateMax name (GBool b) param = None
   \<and> validateMax name (GMap m) param = None
   \<and> validateMax name (GFloat x) param = None
   \<and> validateMax name (GStruct fields) param = None
   \<and> ((\<forall>str. w \<noteq> GString str \<and> w \<noteq> GNamedString str)
        \<and> (\<forall>xs. w \<noteq> GSlice xs \<and> w \<noteq> GArray xs) \<and> (\<forall>kvs. w \<noteq> GMap kvs)
        \<and> (\<forall>q. w \<noteq> GPtr q) \<and> w \<noteq> GNil
      \<longrightarrow> validateRequired name w = None)
   \<and> ((\<forall>str. w \<noteq> GString str \<and> w \<noteq> GNamedString str)
        \<and> (\<forall>xs. w \<noteq> GSlice xs \<and> w \<noteq> GArray xs) \<and> (\<forall>k. w \<noteq> GInt k)
      \<longrightarrow> validateMin name w param = None \<and> validateMax name w param = None)
   \<and> ((\<forall>str. v \<noteq> GString str) \<longrightarrow>
        validateEmail name v
          = Some (''field '' @ quoted name @ '' must be a string for email validation'')
        \<and> validateURL name v
          = Some (''field '' @ quoted name @ '' must be a string for URL validation'')
        \<and> validatePattern re name v param
          = Some (''field '' @ quoted name @ '' must be a string for pattern validation''))"
proof -
  have ty: "(\<forall>str. v \<noteq> GString str) \<longrightarrow>
        validateEmail name v
          = Some (''field '' @ quoted name @ '' must be a string for email validation'')
        \<and> validateURL name v
          = Some (''field '' @ quoted name @ '' must be a string for URL validation'')
        \<and> validatePattern re name v param
          = Some (''field '' @ quoted name @ '' must be a string for pattern validation'')"
    by (cases v) simp_all
  have rq: "(\<forall>str. w \<noteq> GString str \<and> w \<noteq> GNamedString str)
        \<and> (\<forall>xs. w \<noteq> GSlice xs \<and> w \<noteq> GArray xs) \<and> (\<forall>kvs. w \<noteq> GMap kvs)
        \<and> (\<forall>q. w \<noteq> GPtr q) \<and> w \<noteq> GNil
      \<longrightarrow> validateRequired name w = None"
    by (cases w) simp_all
  have mm: "(\<forall>str. w \<noteq> GString str \<and> w \<noteq> GNamedString str)
        \<and> (\<forall>xs. w \<noteq> GSlice xs \<and> w \<noteq> GArray xs) \<and> (\<forall>k. w \<noteq> GInt k)
      \<longrightarrow> validateMin name w param = None \<and> validateMax name w param = None"
    by (cases w) simp_all
  show ?thesis using ty rq mm by simp
qed

theorem silent_pass_outside_applicability_witness:
  "(\<forall>str. GInt 0 \<noteq> GString str)
   \<and> (\<forall>str. GUint 0 \<noteq> GString str \<and> GUint 0 \<noteq> GNamedString str)
   \<and> (\<forall>xs. GUint 0 \<noteq> GSlice xs \<and> GUint 0 \<noteq> GArray xs) \<and> (\<forall>kvs. GUint 0 \<noteq> GMap kvs)
   \<and> (\<forall>q. GUint 0 \<noteq> GPtr q) \<and> GUint 0 \<noteq> GNil \<and> (\<forall>k. GUint 0 \<noteq> GInt k)
   \<and> validateRequired ''Count'' (GInt 0) = None
   \<and> validateRequired ''Count'' (GUint 0) = None
   \<and> validateMin ''Count'' (GUint 0) ''5'' = None
   \<and> validateMin ''Count'' (GBool False) ''5'' = None
   \<and> validateMax ''Count'' (GFloat 0) ''5'' = None
   \<and> validateEmail ''Count'' (GInt 0) = Some ''field 'Count' must be a string for email validation''
   \<and> validateURL ''Count'' (GInt 0) = Some ''field 'Count' must be a string for URL validation''
   \<and> validatePattern compile_none ''Count'' (GInt 0) ''5''
       = Some ''field 'Count' must be a string for pattern validation''"
  using silent_pass_outside_applicability
    [of "''Count''" 0 False 0 "''5''" "[]" "[]" "GUint 0" "GInt 0" compile_none]
  by (simp add: quoted_def)

end
